theory Spec2Isabelle
  imports Complex_Main
begin

section \<open>The expense tracker of app.py\<close>

text \<open>
  The application is a set of request handlers over one relational store with three
  tables and a per-client session. Each handler is embedded as a function from the
  request (method, form or JSON fields, session) and the store to a response and the
  store afterwards. Conventions of the embedding:
  \<^item> a table is the list of its rows in insertion order; a table holds a value as it was
    bound by the handler (the storage engine's column affinity is outside the model);
  \<^item> Python floats are idealised as exact reals;
  \<^item> a point in time is a whole number of seconds, the resolution of the stored format
    \<^verbatim>\<open>%Y-%m-%d %H:%M:%S\<close>. The handler compares the clock against a stored time plus
    whole minutes and stores the clock without its sub-second part, so both uses depend
    on the whole seconds of the clock only; one request reads the clock at one instant;
  \<^item> library functions that are not part of app.py are parameters of the handlers:
    \<open>check_password_hash\<close> and \<open>generate_password_hash\<close> (werkzeug), Python's
    \<open>float\<close> on a string (\<open>None\<close> where it raises) and the storage engine's
    \<open>strftime('%Y-%m', _)\<close> (\<open>None\<close> for SQL NULL);
  \<^item> an exception that leaves a handler is the response \<open>Raise\<close>; nothing was committed
    at any point where the handlers can raise, so the store is unchanged then.
\<close>

subsection \<open>Tables\<close>

text \<open>A stored or submitted amount: a float, or text (what an edit binds).\<close>

datatype amount = Num real | Txt string

record user_row =
  u_id :: int
  u_username :: string
  u_password :: string
  u_attempts :: int
  u_lock_time :: "int option"

record expense_row =
  e_id :: int
  e_user :: string
  e_amount :: amount
  e_category :: string
  e_date :: string

record budget_row =
  b_id :: int
  b_user :: string
  b_month :: string
  b_amount :: real

text \<open>
  The store. The three \<open>_seq\<close> fields are the AUTOINCREMENT counters: the largest id
  ever given out in the table.
\<close>

record db =
  users :: "user_row list"
  expenses :: "expense_row list"
  budgets :: "budget_row list"
  users_seq :: int
  expenses_seq :: int
  budgets_seq :: int

definition init_db :: db where
  "init_db = \<lparr>users = [], expenses = [], budgets = [],
     users_seq = 0, expenses_seq = 0, budgets_seq = 0\<rparr>"

subsection \<open>Requests and responses\<close>

datatype http_method = GET | POST

type_synonym form = "string \<rightharpoonup> string"

text \<open>The session holds at most the key \<open>user\<close>; \<open>None\<close> is a session without it.\<close>

type_synonym session = "string option"

text \<open>
  The JSON body of the structured requests: each of the keys \<open>month\<close> and
  \<open>amount\<close> may be absent; a present month is a string and a present amount a number.
\<close>

record json_body =
  j_month :: "string option"
  j_amount :: "real option"

datatype flash =
    Invalid_Username_Password
  | Account_Locked_Try_Later
  | Welcome string
  | Account_Locked
  | Wrong_Password
  | Account_Created
  | Username_Exists
  | Expense_Added
  | Expense_Updated

datatype error =
    KeyError string
  | BadRequestKeyError string
  | Check_Password_Error

text \<open>The keyword arguments of the dashboard template.\<close>

record dashboard_args =
  shown_expenses :: "expense_row list"
  total :: real
  category_amounts :: "(string \<times> real) list"
  monthly_totals :: "(string \<times> real) list"
  budget :: "real option"
  budget_alert :: bool
  selected_month :: "string option"
  username :: string

text \<open>The exported report: its title, one line per row, and the total.\<close>

record report =
  title :: string
  report_lines :: "(string \<times> string \<times> amount) list"
  report_total :: real

datatype page =
    Login_html
  | Signup_html
  | Dashboard_html dashboard_args
  | Add_expense_html
  | Edit_expense_html "expense_row option"

datatype ack = Status_ok | Done_1

datatype response =
    Redirect string "flash option"
  | Render page "flash option"
  | Jsonify ack
  | Send_file report
  | Raise error

subsection \<open>Settings and helpers\<close>

definition MAX_LOGIN_ATTEMPTS :: int where
  "MAX_LOGIN_ATTEMPTS = 3"

definition LOCK_MINUTES :: int where
  "LOCK_MINUTES = 5"

text \<open>
  \<open>parse_float_safe\<close>: \<open>float(x)\<close>, and 0.0 where that raises. On a float the
  conversion is the identity; on a string it is the parameter \<open>float_of\<close>.
\<close>

definition parse_float_safe :: "(string \<Rightarrow> real option) \<Rightarrow> amount \<Rightarrow> real" where
  "parse_float_safe float_of x =
     (case x of
        Num r \<Rightarrow> r
      | Txt s \<Rightarrow> (case float_of s of Some r \<Rightarrow> r | None \<Rightarrow> 0))"

text \<open>Python's truth value of an optional string: neither \<open>None\<close> nor empty.\<close>

definition truthy :: "string option \<Rightarrow> bool" where
  "truthy m = (case m of None \<Rightarrow> False | Some s \<Rightarrow> s \<noteq> [])"

subsection \<open>Login, signup, logout\<close>

text \<open>\<open>UPDATE users SET ... WHERE username=?\<close>: every row of that name is rewritten.\<close>

definition update_users :: "(user_row \<Rightarrow> user_row) \<Rightarrow> string \<Rightarrow> user_row list \<Rightarrow> user_row list" where
  "update_users f u rows = map (\<lambda>r. if u_username r = u then f r else r) rows"

text \<open>The lock test of lines 86 to 88: a lock time is stored and its window is not over.\<close>

definition lock_active :: "int \<Rightarrow> user_row \<Rightarrow> bool" where
  "lock_active now user =
     (case u_lock_time user of
        None \<Rightarrow> False
      | Some lock \<Rightarrow> now < lock + 60 * LOCK_MINUTES)"

text \<open>
  A username that was not submitted is bound as NULL and selects no row; the first
  selected row is the one fetched. A password that was not submitted makes the library
  call fail.
\<close>

definition login ::
  "(string \<Rightarrow> string \<Rightarrow> bool) \<Rightarrow> int \<Rightarrow> http_method \<Rightarrow> form \<Rightarrow> session \<Rightarrow> db
     \<Rightarrow> response \<times> session \<times> db" where
  "login check_password_hash now meth frm sess d =
     (case meth of
        GET \<Rightarrow> (Render Login_html None, sess, d)
      | POST \<Rightarrow>
          (case frm ''username'' of
             None \<Rightarrow> (Redirect ''/'' (Some Invalid_Username_Password), sess, d)
           | Some u \<Rightarrow>
               (case find (\<lambda>r. u_username r = u) (users d) of
                  None \<Rightarrow> (Redirect ''/'' (Some Invalid_Username_Password), sess, d)
                | Some user \<Rightarrow>
                    if lock_active now user
                    then (Redirect ''/'' (Some Account_Locked_Try_Later), sess, d)
                    else
                      (case frm ''password'' of
                         None \<Rightarrow> (Raise Check_Password_Error, sess, d)
                       | Some p \<Rightarrow>
                           if check_password_hash (u_password user) p
                           then (Redirect ''/dashboard'' (Some (Welcome u)), Some u,
                                 d\<lparr>users := update_users
                                     (\<lambda>r. r\<lparr>u_attempts := 0, u_lock_time := None\<rparr>) u (users d)\<rparr>)
                           else
                             (let attempts = u_attempts user + 1 in
                              if attempts \<ge> MAX_LOGIN_ATTEMPTS
                              then (Redirect ''/'' (Some Account_Locked), sess,
                                    d\<lparr>users := update_users
                                        (\<lambda>r. r\<lparr>u_attempts := attempts, u_lock_time := Some now\<rparr>)
                                        u (users d)\<rparr>)
                              else (Redirect ''/'' (Some Wrong_Password), sess,
                                    d\<lparr>users := update_users
                                        (\<lambda>r. r\<lparr>u_attempts := attempts\<rparr>) u (users d)\<rparr>))))))"

text \<open>
  Signup: the insert fails on the UNIQUE column when the name is taken, and the handler
  catches that. A new row gets the column defaults: no failed attempts, no lock.
\<close>

definition signup ::
  "(string \<Rightarrow> string) \<Rightarrow> http_method \<Rightarrow> form \<Rightarrow> db \<Rightarrow> response \<times> db" where
  "signup generate_password_hash meth frm d =
     (case meth of
        GET \<Rightarrow> (Render Signup_html None, d)
      | POST \<Rightarrow>
          (case frm ''username'' of
             None \<Rightarrow> (Raise (BadRequestKeyError ''username''), d)
           | Some u \<Rightarrow>
               (case frm ''password'' of
                  None \<Rightarrow> (Raise (BadRequestKeyError ''password''), d)
                | Some p \<Rightarrow>
                    (let hashp = generate_password_hash p in
                     if \<exists>r \<in> set (users d). u_username r = u
                     then (Render Signup_html (Some Username_Exists), d)
                     else (Redirect ''/'' (Some Account_Created),
                           d\<lparr>users := users d @
                                [\<lparr>u_id = users_seq d + 1, u_username = u, u_password = hashp,
                                  u_attempts = 0, u_lock_time = None\<rparr>],
                              users_seq := users_seq d + 1\<rparr>)))))"

definition logout :: "session \<Rightarrow> response \<times> session" where
  "logout sess = (Redirect ''/'' None, None)"

subsection \<open>Aggregation\<close>

text \<open>
  \<open>d[k] += v\<close> on a \<open>defaultdict(float)\<close>. The dictionary is the list of its items in
  insertion order: a known key is updated in place, an unknown key is added at the end,
  starting from 0.0.
\<close>

fun dict_add :: "(string \<times> real) list \<Rightarrow> string \<Rightarrow> real \<Rightarrow> (string \<times> real) list" where
  "dict_add [] k v = [(k, 0 + v)]"
| "dict_add ((k', w) # kvs) k v =
     (if k' = k then (k', w + v) # kvs else (k', w) # dict_add kvs k v)"

text \<open>Line 157: the lenient sum of the amounts.\<close>

definition sum_amounts :: "(string \<Rightarrow> real option) \<Rightarrow> expense_row list \<Rightarrow> real" where
  "sum_amounts float_of rows = sum_list (map (\<lambda>e. parse_float_safe float_of (e_amount e)) rows)"

text \<open>Lines 159 to 161: the loop that fills \<open>cat\<close>.\<close>

definition cat_loop :: "(string \<Rightarrow> real option) \<Rightarrow> expense_row list \<Rightarrow> (string \<times> real) list" where
  "cat_loop float_of rows =
     foldl (\<lambda>cat e. dict_add cat (e_category e) (parse_float_safe float_of (e_amount e))) [] rows"

text \<open>Lines 165 to 167: the loop that fills \<open>month_tot\<close>, keyed by \<open>date[:7]\<close>.\<close>

definition month_tot_loop :: "(string \<Rightarrow> real option) \<Rightarrow> expense_row list \<Rightarrow> (string \<times> real) list" where
  "month_tot_loop float_of rows =
     foldl (\<lambda>month_tot r. dict_add month_tot (take 7 (e_date r))
              (parse_float_safe float_of (e_amount r))) [] rows"

text \<open>
  The two SELECTs of lines 151 to 154 (and 293 to 297): with a month that counts as true,
  the user's rows whose date the engine formats to that month; otherwise all rows of the
  user.
\<close>

definition select_expenses ::
  "(string \<Rightarrow> string option) \<Rightarrow> string \<Rightarrow> string option \<Rightarrow> db \<Rightarrow> expense_row list" where
  "select_expenses strftime_ym user month d =
     (if truthy month
      then filter (\<lambda>e. e_user e = user \<and> strftime_ym (e_date e) = month) (expenses d)
      else filter (\<lambda>e. e_user e = user) (expenses d))"

text \<open>Line 169; \<open>this_month\<close> is the clock formatted as \<^verbatim>\<open>%Y-%m\<close>.\<close>

definition effective_month :: "string option \<Rightarrow> string \<Rightarrow> string" where
  "effective_month month this_month =
     (case month of None \<Rightarrow> this_month | Some m \<Rightarrow> if m \<noteq> [] then m else this_month)"

text \<open>Line 173: \<open>bool(budget and total >= budget)\<close>; a budget of 0.0 counts as false.\<close>

definition alert_of :: "real option \<Rightarrow> real \<Rightarrow> bool" where
  "alert_of bdg tot =
     (case bdg of None \<Rightarrow> False | Some b \<Rightarrow> b \<noteq> 0 \<and> tot \<ge> b)"

definition dashboard ::
  "(string \<Rightarrow> real option) \<Rightarrow> (string \<Rightarrow> string option) \<Rightarrow> string \<Rightarrow> session \<Rightarrow> string option \<Rightarrow> db
     \<Rightarrow> response" where
  "dashboard float_of strftime_ym this_month sess month d =
     (case sess of
        None \<Rightarrow> Redirect ''/'' None
      | Some user \<Rightarrow>
          (let rows = select_expenses strftime_ym user month d;
               tot = sum_amounts float_of rows;
               cat = cat_loop float_of rows;
               all_data = filter (\<lambda>e. e_user e = user) (expenses d);
               month_tot = month_tot_loop float_of all_data;
               mon = effective_month month this_month;
               row = find (\<lambda>b. b_user b = user \<and> b_month b = mon) (budgets d);
               bdg = (case row of None \<Rightarrow> None | Some r \<Rightarrow> Some (b_amount r));
               alert = alert_of bdg tot
           in Render (Dashboard_html
                \<lparr>shown_expenses = rows, total = tot, category_amounts = cat,
                 monthly_totals = month_tot, budget = bdg, budget_alert = alert,
                 selected_month = month, username = user\<rparr>) None))"

text \<open>
  The export: the same selection and the same lenient sum. The drawing of the lines, the
  page breaks and the rounding of the printed total are not modelled.
\<close>

definition export_pdf ::
  "(string \<Rightarrow> real option) \<Rightarrow> (string \<Rightarrow> string option) \<Rightarrow> session \<Rightarrow> string option \<Rightarrow> db
     \<Rightarrow> response" where
  "export_pdf float_of strftime_ym sess month d =
     (case sess of
        None \<Rightarrow> Redirect ''/'' None
      | Some user \<Rightarrow>
          (let rows = select_expenses strftime_ym user month d;
               ttl = (case month of None \<Rightarrow> ''All Data''
                      | Some m \<Rightarrow> if m \<noteq> [] then m else ''All Data'')
           in Send_file
                \<lparr>title = ttl,
                 report_lines = map (\<lambda>r. (e_date r, e_category r, e_amount r)) rows,
                 report_total = sum_amounts float_of rows\<rparr>))"

subsection \<open>Expenses\<close>

definition add ::
  "(string \<Rightarrow> real option) \<Rightarrow> http_method \<Rightarrow> form \<Rightarrow> session \<Rightarrow> db \<Rightarrow> response \<times> db" where
  "add float_of meth frm sess d =
     (case sess of
        None \<Rightarrow> (Redirect ''/'' None, d)
      | Some user \<Rightarrow>
          (case meth of
             GET \<Rightarrow> (Render Add_expense_html None, d)
           | POST \<Rightarrow>
               (case frm ''amount'' of
                  None \<Rightarrow> (Raise (BadRequestKeyError ''amount''), d)
                | Some x \<Rightarrow>
                    (let amt = parse_float_safe float_of (Txt x) in
                     case frm ''category'' of
                       None \<Rightarrow> (Raise (BadRequestKeyError ''category''), d)
                     | Some cat \<Rightarrow>
                         (case frm ''date'' of
                            None \<Rightarrow> (Raise (BadRequestKeyError ''date''), d)
                          | Some date \<Rightarrow>
                              (Redirect ''/dashboard'' (Some Expense_Added),
                               d\<lparr>expenses := expenses d @
                                    [\<lparr>e_id = expenses_seq d + 1, e_user = user,
                                      e_amount = Num amt, e_category = cat, e_date = date\<rparr>],
                                  expenses_seq := expenses_seq d + 1\<rparr>))))))"

text \<open>The handler reads \<open>session["user"]\<close> without a test for the key.\<close>

definition delete :: "int \<Rightarrow> session \<Rightarrow> db \<Rightarrow> response \<times> db" where
  "delete eid sess d =
     (case sess of
        None \<Rightarrow> (Raise (KeyError ''user''), d)
      | Some user \<Rightarrow>
          (Redirect ''/dashboard'' None,
           d\<lparr>expenses := filter (\<lambda>e. \<not> (e_id e = eid \<and> e_user e = user)) (expenses d)\<rparr>))"

text \<open>
  Line 229: the custom category when it was submitted and is not empty, else the field
  \<open>category\<close>, which must then be there.
\<close>

definition edit :: "int \<Rightarrow> http_method \<Rightarrow> form \<Rightarrow> session \<Rightarrow> db \<Rightarrow> response \<times> db" where
  "edit eid meth frm sess d =
     (case sess of
        None \<Rightarrow> (Redirect ''/'' None, d)
      | Some user \<Rightarrow>
          (case meth of
             POST \<Rightarrow>
               (case frm ''amount'' of
                  None \<Rightarrow> (Raise (BadRequestKeyError ''amount''), d)
                | Some amt \<Rightarrow>
                    (case (if truthy (frm ''custom_category'')
                           then frm ''custom_category'' else frm ''category'') of
                       None \<Rightarrow> (Raise (BadRequestKeyError ''category''), d)
                     | Some cat \<Rightarrow>
                         (case frm ''date'' of
                            None \<Rightarrow> (Raise (BadRequestKeyError ''date''), d)
                          | Some date \<Rightarrow>
                              (Redirect ''/dashboard'' (Some Expense_Updated),
                               d\<lparr>expenses := map
                                    (\<lambda>e. if e_id e = eid \<and> e_user e = user
                                         then e\<lparr>e_amount := Txt amt, e_category := cat,
                                                e_date := date\<rparr>
                                         else e) (expenses d)\<rparr>))))
           | GET \<Rightarrow>
               (Render (Edit_expense_html
                  (find (\<lambda>e. e_id e = eid \<and> e_user e = user) (expenses d))) None, d)))"

definition clear_month ::
  "(string \<Rightarrow> string option) \<Rightarrow> json_body \<Rightarrow> session \<Rightarrow> db \<Rightarrow> response \<times> db" where
  "clear_month strftime_ym data sess d =
     (case sess of
        None \<Rightarrow> (Raise (KeyError ''user''), d)
      | Some user \<Rightarrow>
          (case j_month data of
             None \<Rightarrow> (Raise (KeyError ''month''), d)
           | Some month \<Rightarrow>
               (Jsonify Status_ok,
                d\<lparr>expenses := filter
                     (\<lambda>e. \<not> (e_user e = user \<and> strftime_ym (e_date e) = Some month))
                     (expenses d)\<rparr>)))"

definition clear_all :: "session \<Rightarrow> db \<Rightarrow> response \<times> db" where
  "clear_all sess d =
     (case sess of
        None \<Rightarrow> (Raise (KeyError ''user''), d)
      | Some user \<Rightarrow>
          (Jsonify Done_1, d\<lparr>expenses := filter (\<lambda>e. e_user e \<noteq> user) (expenses d)\<rparr>))"

subsection \<open>Budgets\<close>

text \<open>
  Lines 255 and 256: the DELETE of the pair's rows, then the INSERT. A missing
  \<open>amount\<close> raises between the two, before the commit, and the DELETE is lost with it.
\<close>

definition set_budget :: "json_body \<Rightarrow> session \<Rightarrow> db \<Rightarrow> response \<times> db" where
  "set_budget data sess d =
     (case sess of
        None \<Rightarrow> (Raise (KeyError ''user''), d)
      | Some user \<Rightarrow>
          (case j_month data of
             None \<Rightarrow> (Raise (KeyError ''month''), d)
           | Some month \<Rightarrow>
               (let kept = filter (\<lambda>b. \<not> (b_user b = user \<and> b_month b = month)) (budgets d) in
                case j_amount data of
                  None \<Rightarrow> (Raise (KeyError ''amount''), d)
                | Some amount \<Rightarrow>
                    (Jsonify Status_ok,
                     d\<lparr>budgets := kept @
                          [\<lparr>b_id = budgets_seq d + 1, b_user = user, b_month = month,
                            b_amount = amount\<rparr>],
                        budgets_seq := budgets_seq d + 1\<rparr>))))"

subsection \<open>A worked scenario\<close>

text \<open>
  Instances of the library parameters for evaluating the handlers: \<open>float\<close> on the
  few strings the scenario submits (it raises on \<open>abc\<close>), and the engine's month of a
  well-formed ISO date.
\<close>

definition demo_float_of :: "string \<Rightarrow> real option" where
  "demo_float_of = [''100'' \<mapsto> 100, ''50'' \<mapsto> 50, ''900'' \<mapsto> 900, ''12.5'' \<mapsto> 12.5]"


definition demo_form :: "string \<Rightarrow> string \<Rightarrow> string \<Rightarrow> form" where
  "demo_form a c dt = [''amount'' \<mapsto> a, ''category'' \<mapsto> c, ''date'' \<mapsto> dt]"

text \<open>
  Two accounts; alice adds (2024-01-05, food, 100), (2024-01-20, food, 50) and
  (2024-02-01, rent, 900), bob adds one expense, and alice sets a budget of 100 for
  2024-01.
\<close>

definition scenario_db :: db where
  "scenario_db =
     (let d0 = snd (signup id POST [''username'' \<mapsto> ''alice'', ''password'' \<mapsto> ''a-pw''] init_db);
          d1 = snd (signup id POST [''username'' \<mapsto> ''bob'', ''password'' \<mapsto> ''b-pw''] d0);
          d2 = snd (add demo_float_of POST (demo_form ''100'' ''food'' ''2024-01-05'') (Some ''alice'') d1);
          d3 = snd (add demo_float_of POST (demo_form ''50'' ''food'' ''2024-01-20'') (Some ''alice'') d2);
          d4 = snd (add demo_float_of POST (demo_form ''900'' ''rent'' ''2024-02-01'') (Some ''alice'') d3);
          d5 = snd (add demo_float_of POST (demo_form ''12.5'' ''misc'' ''2024-01-09'') (Some ''bob'') d4)
      in snd (set_budget \<lparr>j_month = Some ''2024-01'', j_amount = Some 100\<rparr> (Some ''alice'') d5))"





subsection \<open>Reachable stores\<close>

text \<open>
  The stores the handlers can produce from the empty store of \<open>init_db\<close>, under any
  behaviour of the library functions. The handlers that only read (\<open>dashboard\<close>,
  \<open>export_pdf\<close>, \<open>logout\<close>) are left out.
\<close>

inductive reachable :: "db \<Rightarrow> bool" where
  start: "reachable init_db"
| by_signup: "reachable d \<Longrightarrow> reachable (snd (signup generate_password_hash meth frm d))"
| by_login: "reachable d \<Longrightarrow> reachable (snd (snd (login check_password_hash now meth frm sess d)))"
| by_add: "reachable d \<Longrightarrow> reachable (snd (add float_of meth frm sess d))"
| by_delete: "reachable d \<Longrightarrow> reachable (snd (delete eid sess d))"
| by_edit: "reachable d \<Longrightarrow> reachable (snd (edit eid meth frm sess d))"
| by_clear_month: "reachable d \<Longrightarrow> reachable (snd (clear_month strftime_ym data sess d))"
| by_clear_all: "reachable d \<Longrightarrow> reachable (snd (clear_all sess d))"
| by_set_budget: "reachable d \<Longrightarrow> reachable (snd (set_budget data sess d))"

text \<open>
  What the handlers keep true of the users table: names are unique, and a row with a lock
  time has reached the threshold of failed attempts.
\<close>

definition users_ok :: "db \<Rightarrow> bool" where
  "users_ok d \<longleftrightarrow>
     distinct (map u_username (users d))
     \<and> (\<forall>r \<in> set (users d). u_lock_time r \<noteq> None \<longrightarrow> MAX_LOGIN_ATTEMPTS \<le> u_attempts r)"

text \<open>A login or signup form with both fields.\<close>

definition login_form :: "string \<Rightarrow> string \<Rightarrow> form" where
  "login_form u p = [''username'' \<mapsto> u, ''password'' \<mapsto> p]"

text \<open>
  One account, then three wrong passwords at the seconds 1000, 1001 and 1002. The hash of
  the evaluation is the identity and its check is equality.
\<close>

definition fresh_db :: db where
  "fresh_db = snd (signup id POST (login_form ''alice'' ''a-pw'') init_db)"

definition locked_db :: db where
  "locked_db =
     (let d1 = snd (snd (login (=) 1000 POST (login_form ''alice'' ''x'') None fresh_db));
          d2 = snd (snd (login (=) 1001 POST (login_form ''alice'' ''y'') None d1))
      in snd (snd (login (=) 1002 POST (login_form ''alice'' ''z'') None d2)))"

definition alice_row :: user_row where
  "alice_row = \<lparr>u_id = 1, u_username = ''alice'', u_password = ''a-pw'', u_attempts = 0,
                 u_lock_time = None\<rparr>"

subsection \<open>Budgets of a pair, sequences of requests\<close>

text \<open>The budget rows of one (identity, month) pair.\<close>

definition budget_rows :: "string \<Rightarrow> string \<Rightarrow> db \<Rightarrow> budget_row list" where
  "budget_rows user month d =
     filter (\<lambda>b. b_user b = user \<and> b_month b = month) (budgets d)"

text \<open>A sequence of set-budget requests, each with its body and its session.\<close>

fun set_budget_run :: "(json_body \<times> session) list \<Rightarrow> db \<Rightarrow> db" where
  "set_budget_run [] d = d"
| "set_budget_run ((data, sess) # reqs) d = set_budget_run reqs (snd (set_budget data sess d))"

text \<open>No pair has more than one budget row.\<close>

definition budgets_ok :: "db \<Rightarrow> bool" where
  "budgets_ok d \<longleftrightarrow> (\<forall>user month. length (budget_rows user month d) \<le> 1)"

text \<open>
  Four requests on the scenario: alice sets 2024-01 twice, with a request of bob and an
  incomplete one in between.
\<close>

definition twice_reqs :: "(json_body \<times> session) list" where
  "twice_reqs =
     [(\<lparr>j_month = Some ''2024-01'', j_amount = Some 250\<rparr>, Some ''alice''),
      (\<lparr>j_month = Some ''2024-02'', j_amount = Some 5\<rparr>, Some ''bob''),
      (\<lparr>j_month = Some ''2024-01'', j_amount = None\<rparr>, Some ''alice''),
      (\<lparr>j_month = Some ''2024-01'', j_amount = Some 300\<rparr>, Some ''alice'')]"

subsection \<open>The budget alert as the specification words it\<close>





section \<open>Properties\<close>

subsection \<open>The scenarios, evaluated\<close>

lemma scenario_db_rows:
  "scenario_db =
     \<lparr>users = [\<lparr>u_id = 1, u_username = ''alice'', u_password = ''a-pw'', u_attempts = 0,
                 u_lock_time = None\<rparr>,
               \<lparr>u_id = 2, u_username = ''bob'', u_password = ''b-pw'', u_attempts = 0,
                 u_lock_time = None\<rparr>],
      expenses = [\<lparr>e_id = 1, e_user = ''alice'', e_amount = Num 100, e_category = ''food'',
                    e_date = ''2024-01-05''\<rparr>,
                  \<lparr>e_id = 2, e_user = ''alice'', e_amount = Num 50, e_category = ''food'',
                    e_date = ''2024-01-20''\<rparr>,
                  \<lparr>e_id = 3, e_user = ''alice'', e_amount = Num 900, e_category = ''rent'',
                    e_date = ''2024-02-01''\<rparr>,
                  \<lparr>e_id = 4, e_user = ''bob'', e_amount = Num 12.5, e_category = ''misc'',
                    e_date = ''2024-01-09''\<rparr>],
      budgets = [\<lparr>b_id = 1, b_user = ''alice'', b_month = ''2024-01'', b_amount = 100\<rparr>],
      users_seq = 2, expenses_seq = 4, budgets_seq = 1\<rparr>"
  by (simp add: scenario_db_def signup_def add_def set_budget_def init_db_def demo_form_def
      demo_float_of_def parse_float_safe_def)

lemma scenario_db_reachable: "reachable scenario_db"
  unfolding scenario_db_def Let_def
  by (intro reachable.by_set_budget reachable.by_add reachable.by_signup reachable.start)




lemma login_form_fields [simp]:
  "login_form u p ''username'' = Some u" "login_form u p ''password'' = Some p"
  by (simp_all add: login_form_def)

lemma fresh_db_rows:
  "fresh_db = init_db\<lparr>users := [alice_row], users_seq := 1\<rparr>"
  by (simp add: fresh_db_def signup_def init_db_def alice_row_def)

lemma locked_db_rows:
  "locked_db = init_db\<lparr>users := [alice_row\<lparr>u_attempts := 3, u_lock_time := Some 1002\<rparr>],
                       users_seq := 1\<rparr>"
  by (simp add: locked_db_def fresh_db_rows login_def init_db_def alice_row_def lock_active_def
      update_users_def MAX_LOGIN_ATTEMPTS_def LOCK_MINUTES_def)

lemma locked_db_reachable: "reachable locked_db"
  unfolding locked_db_def fresh_db_def Let_def
  by (intro reachable.by_login reachable.by_signup reachable.start)

subsection \<open>The session gate\<close>

text \<open>Four handlers test for the session key and redirect to the login page.\<close>

lemma gated_handlers_redirect:
  "dashboard float_of strftime_ym this_month None month d = Redirect ''/'' None"
  "export_pdf float_of strftime_ym None month d = Redirect ''/'' None"
  "add float_of meth frm None d = (Redirect ''/'' None, d)"
  "edit eid meth frm None d = (Redirect ''/'' None, d)"
  by (simp_all add: dashboard_def export_pdf_def add_def edit_def)

text \<open>
  C1 (a redirect to the login page for every handler but login and signup when there is
  no session) does not hold for four handlers. \<open>delete\<close>, \<open>set_budget\<close>,
  \<open>clear_month\<close> and \<open>clear_all\<close> lack the test of their siblings: without a
  session each of them raises \<open>KeyError\<close> on \<open>session["user"]\<close>, for every request
  and store; the store is unchanged.
\<close>

theorem C1_ungated_handlers_raise:
  "delete eid None d = (Raise (KeyError ''user''), d)
   \<and> set_budget data None d = (Raise (KeyError ''user''), d)
   \<and> clear_month strftime_ym data None d = (Raise (KeyError ''user''), d)
   \<and> clear_all None d = (Raise (KeyError ''user''), d)"
  by (simp add: delete_def set_budget_def clear_month_def clear_all_def)

theorem C1_delete_without_session:
  "delete 1 None init_db = (Raise (KeyError ''user''), init_db)
   \<and> delete 1 None init_db \<noteq> (Redirect ''/'' None, init_db)"
  using C1_ungated_handlers_raise [of 1 init_db] by simp

subsection \<open>Rewriting rows of the users table\<close>

lemma update_users_mem:
  "r \<in> set rows \<Longrightarrow> u_username r = u \<Longrightarrow> f r \<in> set (update_users f u rows)"
  by (induction rows) (auto simp: update_users_def)

lemma update_users_hit:
  assumes "r' \<in> set (update_users f u rows)" and "u_username r' = u"
    and "\<And>r. u_username (f r) = u_username r"
  obtains r where "r \<in> set rows" and "r' = f r"
  using assms by (induction rows) (auto simp: update_users_def split: if_splits)

lemma update_users_names:
  "(\<And>r. u_username (f r) = u_username r) \<Longrightarrow>
   map u_username (update_users f u rows) = map u_username rows"
  by (induction rows) (simp_all add: update_users_def)

lemma find_update_users:
  assumes "\<And>r. u_username (f r) = u_username r"
  shows "find (\<lambda>r. u_username r = u) (update_users f v rows)
         = (if u = v then map_option f (find (\<lambda>r. u_username r = u) rows)
            else find (\<lambda>r. u_username r = u) rows)"
  using assms by (induction rows) (auto simp: update_users_def)

lemma find_distinct_name:
  assumes "distinct (map u_username rows)" and "find (\<lambda>r. u_username r = u) rows = Some user"
    and "r \<in> set rows" and "u_username r = u"
  shows "r = user"
proof -
  from assms(2) have "user \<in> set rows" and "u_username user = u"
    by (auto simp: find_Some_iff)
  with assms(1,3,4) show ?thesis
    by (auto simp: distinct_map inj_on_def)
qed

subsection \<open>The branches of login\<close>

lemma login_get: "login check_password_hash now GET frm sess d = (Render Login_html None, sess, d)"
  by (simp add: login_def)

lemma login_unknown:
  assumes "frm ''username'' = None
           \<or> (\<exists>u. frm ''username'' = Some u \<and> find (\<lambda>r. u_username r = u) (users d) = None)"
  shows "login check_password_hash now POST frm sess d
           = (Redirect ''/'' (Some Invalid_Username_Password), sess, d)"
  using assms by (auto simp: login_def)

lemma login_locked:
  assumes "frm ''username'' = Some u" and "find (\<lambda>r. u_username r = u) (users d) = Some user"
    and "lock_active now user"
  shows "login check_password_hash now POST frm sess d
           = (Redirect ''/'' (Some Account_Locked_Try_Later), sess, d)"
  using assms by (simp add: login_def)

lemma login_no_password:
  assumes "frm ''username'' = Some u" and "find (\<lambda>r. u_username r = u) (users d) = Some user"
    and "\<not> lock_active now user" and "frm ''password'' = None"
  shows "login check_password_hash now POST frm sess d = (Raise Check_Password_Error, sess, d)"
  using assms by (simp add: login_def)

lemma login_success:
  assumes "frm ''username'' = Some u" and "find (\<lambda>r. u_username r = u) (users d) = Some user"
    and "\<not> lock_active now user" and "frm ''password'' = Some p"
    and "check_password_hash (u_password user) p"
  shows "login check_password_hash now POST frm sess d
           = (Redirect ''/dashboard'' (Some (Welcome u)), Some u,
              d\<lparr>users := update_users (\<lambda>r. r\<lparr>u_attempts := 0, u_lock_time := None\<rparr>) u
                             (users d)\<rparr>)"
  using assms by (simp add: login_def)

lemma login_wrong_locks:
  assumes "frm ''username'' = Some u" and "find (\<lambda>r. u_username r = u) (users d) = Some user"
    and "\<not> lock_active now user" and "frm ''password'' = Some p"
    and "\<not> check_password_hash (u_password user) p"
    and "MAX_LOGIN_ATTEMPTS \<le> u_attempts user + 1"
  shows "login check_password_hash now POST frm sess d
           = (Redirect ''/'' (Some Account_Locked), sess,
              d\<lparr>users := update_users
                   (\<lambda>r. r\<lparr>u_attempts := u_attempts user + 1, u_lock_time := Some now\<rparr>) u
                   (users d)\<rparr>)"
  using assms by (simp add: login_def)

lemma login_wrong_counts:
  assumes "frm ''username'' = Some u" and "find (\<lambda>r. u_username r = u) (users d) = Some user"
    and "\<not> lock_active now user" and "frm ''password'' = Some p"
    and "\<not> check_password_hash (u_password user) p"
    and "u_attempts user + 1 < MAX_LOGIN_ATTEMPTS"
  shows "login check_password_hash now POST frm sess d
           = (Redirect ''/'' (Some Wrong_Password), sess,
              d\<lparr>users := update_users (\<lambda>r. r\<lparr>u_attempts := u_attempts user + 1\<rparr>) u
                             (users d)\<rparr>)"
  using assms by (simp add: login_def)

lemma login_success_cases:
  assumes "login check_password_hash now meth frm sess d = (Redirect ''/dashboard'' fl, sess', d')"
  obtains u user p where "meth = POST" and "frm ''username'' = Some u"
    and "find (\<lambda>r. u_username r = u) (users d) = Some user"
    and "\<not> lock_active now user" and "frm ''password'' = Some p"
    and "check_password_hash (u_password user) p"
    and "fl = Some (Welcome u)" and "sess' = Some u"
    and "d' = d\<lparr>users := update_users (\<lambda>r. r\<lparr>u_attempts := 0, u_lock_time := None\<rparr>) u (users d)\<rparr>"
  using assms
  by (auto simp: login_def Let_def split: http_method.splits option.splits if_splits)

lemma login_store_cases:
  obtains (same) "snd (snd (login check_password_hash now meth frm sess d)) = d"
  | (reset) u where
      "snd (snd (login check_password_hash now meth frm sess d))
        = d\<lparr>users := update_users (\<lambda>r. r\<lparr>u_attempts := 0, u_lock_time := None\<rparr>) u (users d)\<rparr>"
  | (lock) u user where "find (\<lambda>r. u_username r = u) (users d) = Some user"
      and "MAX_LOGIN_ATTEMPTS \<le> u_attempts user + 1"
      and "snd (snd (login check_password_hash now meth frm sess d))
        = d\<lparr>users := update_users
             (\<lambda>r. r\<lparr>u_attempts := u_attempts user + 1, u_lock_time := Some now\<rparr>) u (users d)\<rparr>"
  | (count) u user where "find (\<lambda>r. u_username r = u) (users d) = Some user"
      and "\<not> lock_active now user"
      and "u_attempts user + 1 < MAX_LOGIN_ATTEMPTS"
      and "snd (snd (login check_password_hash now meth frm sess d))
        = d\<lparr>users := update_users (\<lambda>r. r\<lparr>u_attempts := u_attempts user + 1\<rparr>) u (users d)\<rparr>"
proof (cases meth)
  case GET
  then show ?thesis using same by (simp add: login_get)
next
  case POST
  show ?thesis
  proof (cases "frm ''username''")
    case None
    then show ?thesis using same POST by (simp add: login_unknown)
  next
    case (Some u)
    note name = this
    show ?thesis
    proof (cases "find (\<lambda>r. u_username r = u) (users d)")
      case None
      then show ?thesis using same POST name by (simp add: login_unknown)
    next
      case (Some user)
      note row = this
      show ?thesis
      proof (cases "lock_active now user")
        case True
        then show ?thesis using same POST name row by (simp add: login_locked)
      next
        case False
        note free = this
        show ?thesis
        proof (cases "frm ''password''")
          case None
          then show ?thesis using same POST name row free by (simp add: login_no_password)
        next
          case (Some p)
          note pw = this
          consider (ok) "check_password_hash (u_password user) p"
            | (locks) "\<not> check_password_hash (u_password user) p"
                "MAX_LOGIN_ATTEMPTS \<le> u_attempts user + 1"
            | (counts) "\<not> check_password_hash (u_password user) p"
                "u_attempts user + 1 < MAX_LOGIN_ATTEMPTS"
            by fastforce
          then show ?thesis
          proof cases
            case ok
            with POST name row free pw show ?thesis
              by (intro reset [of u]) (simp add: login_success)
          next
            case locks
            with POST name row free pw show ?thesis
              by (intro lock [of u user]) (simp_all add: login_wrong_locks)
          next
            case counts
            with POST name row free pw show ?thesis
              by (intro count [of u user]) (simp_all add: login_wrong_counts)
          qed
        qed
      qed
    qed
  qed
qed

text \<open>
  C4. Every successful authentication (every call of \<open>login\<close> that answers with the
  redirect to the dashboard) binds the session to the submitted name, and in the users
  table afterwards a row of that name exists and every row of that name has its
  failed-attempt counter at 0 and no lock time.
\<close>

theorem C4_success_resets:
  assumes "login check_password_hash now meth frm sess d = (Redirect ''/dashboard'' fl, sess', d')"
  shows "\<exists>u. frm ''username'' = Some u \<and> sess' = Some u
           \<and> (\<exists>r \<in> set (users d'). u_username r = u)
           \<and> (\<forall>r \<in> set (users d'). u_username r = u \<longrightarrow> u_attempts r = 0 \<and> u_lock_time r = None)"
proof -
  let ?f = "\<lambda>r. r\<lparr>u_attempts := 0, u_lock_time := None\<rparr>"
  from assms obtain u user where u: "frm ''username'' = Some u" "sess' = Some u"
    and f: "find (\<lambda>r. u_username r = u) (users d) = Some user"
    and d': "d' = d\<lparr>users := update_users ?f u (users d)\<rparr>"
    by (rule login_success_cases)
  have us: "users d' = update_users ?f u (users d)"
    by (simp add: d')
  from f have mem: "user \<in> set (users d)" and nm: "u_username user = u"
    by (auto simp: find_Some_iff)
  have "?f user \<in> set (users d')"
    unfolding us using mem nm by (rule update_users_mem)
  moreover have "u_username (?f user) = u"
    using nm by simp
  ultimately have ex: "\<exists>r \<in> set (users d'). u_username r = u"
    by blast
  have "u_attempts r' = 0 \<and> u_lock_time r' = None"
    if in': "r' \<in> set (users d')" and nm': "u_username r' = u" for r'
  proof -
    from in' have "r' \<in> set (update_users ?f u (users d))"
      by (simp only: us)
    then obtain r where "r' = ?f r"
      using nm' by (rule update_users_hit) simp
    then show ?thesis by simp
  qed
  with ex u show ?thesis by blast
qed

theorem C4_success_resets_witness:
  "let d = \<lparr>users = [\<lparr>u_id = 1, u_username = ''alice'', u_password = ''pw'', u_attempts = 3,
                        u_lock_time = Some 1000\<rparr>],
            expenses = [], budgets = [], users_seq = 1, expenses_seq = 0, budgets_seq = 0\<rparr>;
       frm = [''username'' \<mapsto> ''alice'', ''password'' \<mapsto> ''pw''];
       d' = d\<lparr>users := [\<lparr>u_id = 1, u_username = ''alice'', u_password = ''pw'', u_attempts = 0,
                        u_lock_time = None\<rparr>]\<rparr>
   in login (=) 1300 POST frm None d = (Redirect ''/dashboard'' (Some (Welcome ''alice'')), Some ''alice'', d')
      \<and> (\<exists>u. frm ''username'' = Some u \<and> Some ''alice'' = Some u
           \<and> (\<exists>r \<in> set (users d'). u_username r = u)
           \<and> (\<forall>r \<in> set (users d'). u_username r = u \<longrightarrow> u_attempts r = 0 \<and> u_lock_time r = None))"
proof -
  define d where "d = \<lparr>users = [\<lparr>u_id = 1, u_username = ''alice'', u_password = ''pw'', u_attempts = 3,
                        u_lock_time = Some 1000\<rparr>],
            expenses = [], budgets = [], users_seq = 1, expenses_seq = 0, budgets_seq = 0\<rparr>"
  define frm :: form where "frm = [''username'' \<mapsto> ''alice'', ''password'' \<mapsto> ''pw'']"
  define d' where "d' = d\<lparr>users := [\<lparr>u_id = 1, u_username = ''alice'', u_password = ''pw'', u_attempts = 0,
                        u_lock_time = None\<rparr>]\<rparr>"
  have run: "login (=) 1300 POST frm None d = (Redirect ''/dashboard'' (Some (Welcome ''alice'')), Some ''alice'', d')"
    by (simp add: login_def d_def d'_def frm_def lock_active_def LOCK_MINUTES_def update_users_def)
  from C4_success_resets [OF run] run show ?thesis
    unfolding Let_def d_def [symmetric] frm_def [symmetric] d'_def [symmetric] by simp
qed

subsection \<open>What every reachable users table satisfies\<close>

lemma users_ok_init: "users_ok init_db"
  by (simp add: users_ok_def init_db_def)

lemma users_ok_same_users: "users d' = users d \<Longrightarrow> users_ok d \<Longrightarrow> users_ok d'"
  by (simp add: users_ok_def)

lemma users_ok_signup:
  assumes "users_ok d"
  shows "users_ok (snd (signup generate_password_hash meth frm d))"
  using assms
  by (cases meth; cases "frm ''username''"; cases "frm ''password''")
     (auto simp: signup_def users_ok_def Let_def)

lemma users_ok_update:
  assumes ok: "users_ok d"
    and name: "\<And>r. u_username (f r) = u_username r"
    and lock: "\<And>r. r \<in> set (users d) \<Longrightarrow> u_username r = u \<Longrightarrow> u_lock_time (f r) \<noteq> None
                 \<Longrightarrow> MAX_LOGIN_ATTEMPTS \<le> u_attempts (f r)"
  shows "users_ok (d\<lparr>users := update_users f u (users d)\<rparr>)"
proof -
  have "distinct (map u_username (update_users f u (users d)))"
    using ok by (simp add: update_users_names [OF name] users_ok_def)
  moreover have "MAX_LOGIN_ATTEMPTS \<le> u_attempts r'"
    if in': "r' \<in> set (update_users f u (users d))" and l: "u_lock_time r' \<noteq> None" for r'
  proof -
    from in' obtain r where r: "r \<in> set (users d)"
      and r': "r' = (if u_username r = u then f r else r)"
      by (auto simp: update_users_def)
    show ?thesis
    proof (cases "u_username r = u")
      case True
      with r r' l lock [of r] show ?thesis by simp
    next
      case False
      with r r' l ok show ?thesis by (auto simp: users_ok_def)
    qed
  qed
  ultimately show ?thesis by (simp add: users_ok_def)
qed

lemma users_ok_login:
  assumes ok: "users_ok d"
  shows "users_ok (snd (snd (login check_password_hash now meth frm sess d)))"
proof (cases rule: login_store_cases [of check_password_hash now meth frm sess d])
  case same
  with ok show ?thesis by simp
next
  case (reset u)
  have "users_ok (d\<lparr>users := update_users (\<lambda>r. r\<lparr>u_attempts := 0, u_lock_time := None\<rparr>) u
                             (users d)\<rparr>)"
    using ok by (rule users_ok_update) simp_all
  with reset show ?thesis by simp
next
  case (lock u user)
  have "users_ok (d\<lparr>users := update_users
      (\<lambda>r. r\<lparr>u_attempts := u_attempts user + 1, u_lock_time := Some now\<rparr>) u (users d)\<rparr>)"
    using ok by (rule users_ok_update) (simp_all add: lock(2))
  with lock(3) show ?thesis by simp
next
  case (count u user)
  have "MAX_LOGIN_ATTEMPTS \<le> u_attempts (r\<lparr>u_attempts := u_attempts user + 1\<rparr>)"
    if "r \<in> set (users d)" and "u_username r = u"
      and "u_lock_time (r\<lparr>u_attempts := u_attempts user + 1\<rparr>) \<noteq> None" for r
  proof -
    from ok have "distinct (map u_username (users d))"
      by (simp add: users_ok_def)
    from find_distinct_name [OF this count(1) that(1,2)] have "r = user" .
    with that(1,3) ok have "MAX_LOGIN_ATTEMPTS \<le> u_attempts user"
      by (auto simp: users_ok_def)
    then show ?thesis by simp
  qed
  with ok have "users_ok (d\<lparr>users := update_users (\<lambda>r. r\<lparr>u_attempts := u_attempts user + 1\<rparr>) u
                                     (users d)\<rparr>)"
    by (intro users_ok_update) simp_all
  with count(4) show ?thesis by simp
qed

lemma reachable_users_ok: "reachable d \<Longrightarrow> users_ok d"
proof (induction rule: reachable.induct)
  case start
  show ?case by (rule users_ok_init)
next
  case (by_signup d generate_password_hash meth frm)
  then show ?case by (simp add: users_ok_signup)
next
  case (by_login d check_password_hash now meth frm sess)
  then show ?case by (simp add: users_ok_login)
next
  case (by_add d float_of meth frm sess)
  then show ?case
    by (elim users_ok_same_users [rotated])
       (simp add: add_def Let_def split: option.splits http_method.splits)
next
  case (by_delete d eid sess)
  then show ?case
    by (elim users_ok_same_users [rotated]) (simp add: delete_def split: option.splits)
next
  case (by_edit d eid meth frm sess)
  then show ?case
    by (elim users_ok_same_users [rotated])
       (simp add: edit_def split: option.splits http_method.splits)
next
  case (by_clear_month d strftime_ym data sess)
  then show ?case
    by (elim users_ok_same_users [rotated]) (simp add: clear_month_def split: option.splits)
next
  case (by_clear_all d sess)
  then show ?case
    by (elim users_ok_same_users [rotated]) (simp add: clear_all_def split: option.splits)
next
  case (by_set_budget d data sess)
  then show ?case
    by (elim users_ok_same_users [rotated])
       (simp add: set_budget_def Let_def split: option.splits)
qed

subsection \<open>The lockout\<close>

lemma wrong_password_step:
  assumes "find (\<lambda>r. u_username r = u) (users d) = Some user"
    and "frm ''username'' = Some u" and "frm ''password'' = Some p"
    and "\<not> lock_active now user"
    and "\<not> check_password_hash (u_password user) p"
  shows "fst (login check_password_hash now POST frm sess d)
           = Redirect ''/'' (Some (if MAX_LOGIN_ATTEMPTS \<le> u_attempts user + 1
                                   then Account_Locked else Wrong_Password))"
    and "fst (snd (login check_password_hash now POST frm sess d)) = sess"
    and "find (\<lambda>r. u_username r = u)
           (users (snd (snd (login check_password_hash now POST frm sess d))))
         = Some (if MAX_LOGIN_ATTEMPTS \<le> u_attempts user + 1
                 then user\<lparr>u_attempts := u_attempts user + 1, u_lock_time := Some now\<rparr>
                 else user\<lparr>u_attempts := u_attempts user + 1\<rparr>)"
  using assms by (simp_all add: login_def Let_def find_update_users)

lemma three_wrong_passwords:
  fixes sess :: session and t1 t2 t3 :: int and d :: db
    and check_password_hash :: "string \<Rightarrow> string \<Rightarrow> bool"
  assumes row: "find (\<lambda>r. u_username r = u) (users d) = Some user"
    and fresh: "u_attempts user = 0" "u_lock_time user = None"
    and wrong: "\<not> check_password_hash (u_password user) p1"
      "\<not> check_password_hash (u_password user) p2"
      "\<not> check_password_hash (u_password user) p3"
  defines "d1 \<equiv> snd (snd (login check_password_hash t1 POST (login_form u p1) sess d))"
  defines "d2 \<equiv> snd (snd (login check_password_hash t2 POST (login_form u p2) sess d1))"
  defines "r3 \<equiv> login check_password_hash t3 POST (login_form u p3) sess d2"
  shows "fst r3 = Redirect ''/'' (Some Account_Locked)"
    and "find (\<lambda>r. u_username r = u) (users (snd (snd r3)))
           = Some (user\<lparr>u_attempts := 3, u_lock_time := Some t3\<rparr>)"
proof -
  have row1: "find (\<lambda>r. u_username r = u) (users d1) = Some (user\<lparr>u_attempts := 1\<rparr>)"
    unfolding d1_def
    by (subst wrong_password_step(3) [where user = user and p = p1])
       (simp_all add: row fresh wrong lock_active_def MAX_LOGIN_ATTEMPTS_def)
  have row2: "find (\<lambda>r. u_username r = u) (users d2) = Some (user\<lparr>u_attempts := 2\<rparr>)"
    unfolding d2_def
    by (subst wrong_password_step(3) [where user = "user\<lparr>u_attempts := 1\<rparr>" and p = p2])
       (simp_all add: row1 fresh wrong lock_active_def MAX_LOGIN_ATTEMPTS_def)
  show "fst r3 = Redirect ''/'' (Some Account_Locked)"
    unfolding r3_def
    by (subst wrong_password_step(1) [where user = "user\<lparr>u_attempts := 2\<rparr>" and p = p3 and u = u])
       (simp_all add: row2 fresh wrong lock_active_def MAX_LOGIN_ATTEMPTS_def)
  show "find (\<lambda>r. u_username r = u) (users (snd (snd r3)))
           = Some (user\<lparr>u_attempts := 3, u_lock_time := Some t3\<rparr>)"
    unfolding r3_def
    by (subst wrong_password_step(3) [where user = "user\<lparr>u_attempts := 2\<rparr>" and p = p3])
       (simp_all add: row2 fresh wrong lock_active_def MAX_LOGIN_ATTEMPTS_def)
qed

text \<open>
  C2. For an account \<open>u\<close> whose row is \<open>user\<close>:
  \<^item> from a counter of 0 and no lock (the state after signup or a successful login), three
    wrong passwords in a row, at any times, end with the notice that the account is locked
    and a row whose counter is 3 and whose lock time is the time of the third attempt;
  \<^item> while \<open>now < lock + 300\<close> seconds, every login attempt for \<open>u\<close>, whatever
    password it carries (the right one, a wrong one or none), is answered with the locked
    notice, and neither session nor store change;
  \<^item> from \<open>lock + 300\<close> on, no attempt is answered with that notice, and the right
    password logs in.
\<close>

theorem C2_lockout_window:
  assumes row: "find (\<lambda>r. u_username r = u) (users d) = Some user"
  shows "(u_attempts user = 0 \<and> u_lock_time user = None
          \<and> \<not> check_password_hash (u_password user) p1
          \<and> \<not> check_password_hash (u_password user) p2
          \<and> \<not> check_password_hash (u_password user) p3
          \<longrightarrow> (let d1 = snd (snd (login check_password_hash t1 POST (login_form u p1) sess d));
                   d2 = snd (snd (login check_password_hash t2 POST (login_form u p2) sess d1));
                   r3 = login check_password_hash t3 POST (login_form u p3) sess d2
               in fst r3 = Redirect ''/'' (Some Account_Locked)
                  \<and> find (\<lambda>r. u_username r = u) (users (snd (snd r3)))
                      = Some (user\<lparr>u_attempts := 3, u_lock_time := Some t3\<rparr>)))
       \<and> (\<forall>lock. u_lock_time user = Some lock \<and> now < lock + 300 \<and> frm ''username'' = Some u
            \<longrightarrow> login check_password_hash now POST frm sess d
                  = (Redirect ''/'' (Some Account_Locked_Try_Later), sess, d))
       \<and> (\<forall>lock. u_lock_time user = Some lock \<and> lock + 300 \<le> now \<and> frm ''username'' = Some u
            \<longrightarrow> fst (login check_password_hash now POST frm sess d)
                  \<noteq> Redirect ''/'' (Some Account_Locked_Try_Later)
                \<and> (\<forall>p. frm ''password'' = Some p \<and> check_password_hash (u_password user) p
                     \<longrightarrow> fst (login check_password_hash now POST frm sess d)
                           = Redirect ''/dashboard'' (Some (Welcome u))
                         \<and> fst (snd (login check_password_hash now POST frm sess d)) = Some u))"
proof (intro conjI allI impI)
  assume a: "u_attempts user = 0 \<and> u_lock_time user = None
          \<and> \<not> check_password_hash (u_password user) p1
          \<and> \<not> check_password_hash (u_password user) p2
          \<and> \<not> check_password_hash (u_password user) p3"
  with three_wrong_passwords [OF row, where check_password_hash = check_password_hash
      and ?p1.0 = p1 and ?p2.0 = p2 and ?p3.0 = p3 and ?t1.0 = t1 and ?t2.0 = t2 and ?t3.0 = t3
      and sess = sess]
  show "let d1 = snd (snd (login check_password_hash t1 POST (login_form u p1) sess d));
            d2 = snd (snd (login check_password_hash t2 POST (login_form u p2) sess d1));
            r3 = login check_password_hash t3 POST (login_form u p3) sess d2
        in fst r3 = Redirect ''/'' (Some Account_Locked)
           \<and> find (\<lambda>r. u_username r = u) (users (snd (snd r3)))
               = Some (user\<lparr>u_attempts := 3, u_lock_time := Some t3\<rparr>)"
    by (simp add: Let_def)
next
  fix lock
  assume "u_lock_time user = Some lock \<and> now < lock + 300 \<and> frm ''username'' = Some u"
  then have "frm ''username'' = Some u" and "lock_active now user"
    by (simp_all add: lock_active_def LOCK_MINUTES_def)
  with row show "login check_password_hash now POST frm sess d
      = (Redirect ''/'' (Some Account_Locked_Try_Later), sess, d)"
    by (simp add: login_locked)
next
  fix lock
  assume b: "u_lock_time user = Some lock \<and> lock + 300 \<le> now \<and> frm ''username'' = Some u"
  then have name: "frm ''username'' = Some u" and free: "\<not> lock_active now user"
    by (simp_all add: lock_active_def LOCK_MINUTES_def)
  show "fst (login check_password_hash now POST frm sess d)
      \<noteq> Redirect ''/'' (Some Account_Locked_Try_Later)"
    using row name free by (simp add: login_def Let_def split: option.splits)
  fix p
  assume "frm ''password'' = Some p \<and> check_password_hash (u_password user) p"
  then have "login check_password_hash now POST frm sess d
      = (Redirect ''/dashboard'' (Some (Welcome u)), Some u,
         d\<lparr>users := update_users (\<lambda>r. r\<lparr>u_attempts := 0, u_lock_time := None\<rparr>) u (users d)\<rparr>)"
    using row name free by (simp add: login_success)
  then show "fst (login check_password_hash now POST frm sess d)
      = Redirect ''/dashboard'' (Some (Welcome u))"
    and "fst (snd (login check_password_hash now POST frm sess d)) = Some u"
    by simp_all
qed

theorem C2_lockout_window_witness:
  "find (\<lambda>r. u_username r = ''alice'') (users fresh_db) = Some alice_row
   \<and> u_attempts alice_row = 0 \<and> u_lock_time alice_row = None
   \<and> find (\<lambda>r. u_username r = ''alice'') (users locked_db)
       = Some (alice_row\<lparr>u_attempts := 3, u_lock_time := Some 1002\<rparr>)
   \<and> login (=) 1301 POST (login_form ''alice'' ''a-pw'') None locked_db
       = (Redirect ''/'' (Some Account_Locked_Try_Later), None, locked_db)
   \<and> fst (login (=) 1302 POST (login_form ''alice'' ''a-pw'') None locked_db)
       = Redirect ''/dashboard'' (Some (Welcome ''alice''))"
proof -
  have r0: "find (\<lambda>r. u_username r = ''alice'') (users fresh_db) = Some alice_row"
    by (simp add: fresh_db_rows alice_row_def)
  have a0: "u_attempts alice_row = 0" "u_lock_time alice_row = None"
    "u_password alice_row = ''a-pw''"
    by (simp_all add: alice_row_def)
  have r1: "find (\<lambda>r. u_username r = ''alice'') (users locked_db)
       = Some (alice_row\<lparr>u_attempts := 3, u_lock_time := Some 1002\<rparr>)"
    using C2_lockout_window [OF r0, where check_password_hash = "(=)"
        and ?p1.0 = "''x''" and ?p2.0 = "''y''" and ?p3.0 = "''z''"
        and ?t1.0 = 1000 and ?t2.0 = 1001 and ?t3.0 = 1002 and sess = None]
    by (simp add: a0 locked_db_def Let_def)
  have "login (=) 1301 POST (login_form ''alice'' ''a-pw'') None locked_db
       = (Redirect ''/'' (Some Account_Locked_Try_Later), None, locked_db)"
    using C2_lockout_window [OF r1, where now = 1301 and frm = "login_form ''alice'' ''a-pw''"
        and check_password_hash = "(=)" and sess = None]
    by simp
  moreover have "fst (login (=) 1302 POST (login_form ''alice'' ''a-pw'') None locked_db)
       = Redirect ''/dashboard'' (Some (Welcome ''alice''))"
    using C2_lockout_window [OF r1, where now = 1302 and frm = "login_form ''alice'' ''a-pw''"
        and check_password_hash = "(=)" and sess = None]
    by (simp add: a0)
  ultimately show ?thesis
    using r0 r1 a0 by simp
qed

text \<open>
  C10. In every reachable store, an account whose lock window is over still has a counter
  at or above the threshold, and one wrong password then answers with the notice that the
  account is locked and stores the time of that attempt as the new lock time, with the
  counter one higher.
\<close>

theorem C10_relock_after_expiry:
  assumes reach: "reachable d"
    and row: "find (\<lambda>r. u_username r = u) (users d) = Some user"
    and expired: "u_lock_time user = Some lock" "lock + 300 \<le> now"
    and form: "frm ''username'' = Some u" "frm ''password'' = Some p"
    and wrong: "\<not> check_password_hash (u_password user) p"
  shows "MAX_LOGIN_ATTEMPTS \<le> u_attempts user
       \<and> fst (login check_password_hash now POST frm sess d) = Redirect ''/'' (Some Account_Locked)
       \<and> fst (snd (login check_password_hash now POST frm sess d)) = sess
       \<and> find (\<lambda>r. u_username r = u)
            (users (snd (snd (login check_password_hash now POST frm sess d))))
           = Some (user\<lparr>u_attempts := u_attempts user + 1, u_lock_time := Some now\<rparr>)"
proof -
  from reach have "users_ok d"
    by (rule reachable_users_ok)
  moreover from row have "user \<in> set (users d)"
    by (auto simp: find_Some_iff)
  ultimately have many: "MAX_LOGIN_ATTEMPTS \<le> u_attempts user"
    using expired(1) by (auto simp: users_ok_def)
  have free: "\<not> lock_active now user"
    using expired by (simp add: lock_active_def LOCK_MINUTES_def)
  from many wrong_password_step
    [where check_password_hash = check_password_hash and sess = sess, OF row form free wrong]
  show ?thesis by simp
qed

theorem C10_relock_after_expiry_witness:
  "reachable locked_db
   \<and> find (\<lambda>r. u_username r = ''alice'') (users locked_db)
       = Some (alice_row\<lparr>u_attempts := 3, u_lock_time := Some 1002\<rparr>)
   \<and> fst (login (=) 1302 POST (login_form ''alice'' ''guess'') None locked_db)
       = Redirect ''/'' (Some Account_Locked)
   \<and> find (\<lambda>r. u_username r = ''alice'')
        (users (snd (snd (login (=) 1302 POST (login_form ''alice'' ''guess'') None locked_db))))
       = Some (alice_row\<lparr>u_attempts := 4, u_lock_time := Some 1302\<rparr>)"
proof -
  have r1: "find (\<lambda>r. u_username r = ''alice'') (users locked_db)
       = Some (alice_row\<lparr>u_attempts := 3, u_lock_time := Some 1002\<rparr>)"
    by (simp add: locked_db_rows alice_row_def)
  have w: "\<not> (u_password (alice_row\<lparr>u_attempts := 3, u_lock_time := Some 1002\<rparr>) = ''guess'')"
    by (simp add: alice_row_def)
  from C10_relock_after_expiry [OF locked_db_reachable r1, where lock = 1002 and now = 1302
      and frm = "login_form ''alice'' ''guess''" and p = "''guess''"
      and check_password_hash = "(=)" and sess = None] w r1 locked_db_reachable
  show ?thesis by simp
qed

subsection \<open>Editing, deleting and adding expenses\<close>

lemma db_expenses_same: "d\<lparr>expenses := expenses d\<rparr> = d"
  by simp













subsection \<open>Aggregation\<close>








lemma dashboard_args_cases:
  assumes "dashboard float_of strftime_ym this_month sess month d = Render (Dashboard_html a) fl"
  obtains user where "sess = Some user"
    and "shown_expenses a = select_expenses strftime_ym user month d"
    and "total a = sum_amounts float_of (shown_expenses a)"
    and "category_amounts a = cat_loop float_of (shown_expenses a)"
    and "monthly_totals a = month_tot_loop float_of (filter (\<lambda>e. e_user e = user) (expenses d))"
    and "budget a = map_option b_amount
           (find (\<lambda>b. b_user b = user \<and> b_month b = effective_month month this_month) (budgets d))"
    and "budget_alert a = alert_of (budget a) (total a)"
  using assms
  by (cases sess) (auto simp: dashboard_def Let_def split: option.splits)







subsection \<open>Budgets\<close>

lemma set_budget_complete:
  assumes "j_month data = Some month" and "j_amount data = Some a"
  shows "set_budget data (Some user) d =
           (Jsonify Status_ok,
            d\<lparr>budgets := filter (\<lambda>b. \<not> (b_user b = user \<and> b_month b = month)) (budgets d) @
                 [\<lparr>b_id = budgets_seq d + 1, b_user = user, b_month = month, b_amount = a\<rparr>],
               budgets_seq := budgets_seq d + 1\<rparr>)"
  using assms by (simp add: set_budget_def)

lemma set_budget_incomplete:
  assumes "sess = None \<or> j_month data = None \<or> j_amount data = None"
  shows "snd (set_budget data sess d) = d"
  using assms by (auto simp: set_budget_def split: option.splits)

lemma filter_other_pair:
  assumes "(u', m') \<noteq> (u, m)"
  shows "filter (\<lambda>b. b_user b = u \<and> b_month b = m)
           (filter (\<lambda>b. \<not> (b_user b = u' \<and> b_month b = m')) bs)
         = filter (\<lambda>b. b_user b = u \<and> b_month b = m) bs"
  using assms by (induction bs) auto

lemma filter_same_pair:
  "filter (\<lambda>b. b_user b = u \<and> b_month b = m)
     (filter (\<lambda>b. \<not> (b_user b = u \<and> b_month b = m)) bs) = []"
  by (induction bs) auto

lemma budgets_after_set:
  assumes "j_month data = Some month" and "j_amount data = Some a"
  shows "budgets (snd (set_budget data (Some user) d))
         = filter (\<lambda>b. \<not> (b_user b = user \<and> b_month b = month)) (budgets d) @
             [\<lparr>b_id = budgets_seq d + 1, b_user = user, b_month = month, b_amount = a\<rparr>]"
  by (simp add: set_budget_complete [OF assms])

lemma budget_rows_set_same:
  assumes "j_month data = Some month" and "j_amount data = Some a"
  shows "budget_rows user month (snd (set_budget data (Some user) d))
         = [\<lparr>b_id = budgets_seq d + 1, b_user = user, b_month = month, b_amount = a\<rparr>]"
proof -
  let ?new = "\<lparr>b_id = budgets_seq d + 1, b_user = user, b_month = month, b_amount = a\<rparr>"
  have "filter (\<lambda>b. b_user b = user \<and> b_month b = month) [?new] = [?new]"
    by simp
  then show ?thesis
    by (simp only: budget_rows_def budgets_after_set [OF assms] filter_append filter_same_pair
        append_Nil)
qed

lemma budget_rows_set_other:
  assumes "sess \<noteq> Some user \<or> j_month data \<noteq> Some month \<or> j_amount data = None"
  shows "budget_rows user month (snd (set_budget data sess d)) = budget_rows user month d"
proof (cases "sess = None \<or> j_month data = None \<or> j_amount data = None")
  case True
  then show ?thesis by (simp add: set_budget_incomplete)
next
  case False
  then obtain u' m' a where c: "sess = Some u'" "j_month data = Some m'" "j_amount data = Some a"
    by auto
  let ?new = "\<lparr>b_id = budgets_seq d + 1, b_user = u', b_month = m', b_amount = a\<rparr>"
  from c assms have other: "(u', m') \<noteq> (user, month)"
    by auto
  then have "filter (\<lambda>b. b_user b = user \<and> b_month b = month) [?new] = []"
    by auto
  then show ?thesis
    by (simp only: c budget_rows_def budgets_after_set [OF c(2,3)] filter_append
        filter_other_pair [OF other] append_Nil2)
qed

lemma set_budget_keeps_one:
  assumes "length (budget_rows user month d) = 1"
  shows "length (budget_rows user month (snd (set_budget data sess d))) = 1"
proof (cases "sess = Some user \<and> j_month data = Some month \<and> j_amount data \<noteq> None")
  case True
  then show ?thesis by (auto simp: budget_rows_set_same)
next
  case False
  then have "budget_rows user month (snd (set_budget data sess d)) = budget_rows user month d"
    by (intro budget_rows_set_other) auto
  with assms show ?thesis by simp
qed

lemma set_budget_run_keeps_one:
  "length (budget_rows user month d) = 1 \<Longrightarrow>
   length (budget_rows user month (set_budget_run reqs d)) = 1"
  by (induction reqs arbitrary: d) (auto simp: set_budget_keeps_one)

text \<open>No handler but \<open>set_budget\<close> writes budgets: no reachable store has two rows of a pair.\<close>

lemma budgets_ok_set_budget:
  assumes "budgets_ok d"
  shows "budgets_ok (snd (set_budget data sess d))"
  unfolding budgets_ok_def
proof (intro allI)
  fix user month
  show "length (budget_rows user month (snd (set_budget data sess d))) \<le> 1"
  proof (cases "sess = Some user \<and> j_month data = Some month \<and> j_amount data \<noteq> None")
    case True
    then show ?thesis by (auto simp: budget_rows_set_same)
  next
    case False
    then have "budget_rows user month (snd (set_budget data sess d)) = budget_rows user month d"
      by (intro budget_rows_set_other) auto
    with assms show ?thesis by (simp add: budgets_ok_def)
  qed
qed

lemma budgets_ok_same_budgets: "budgets d' = budgets d \<Longrightarrow> budgets_ok d \<Longrightarrow> budgets_ok d'"
  by (simp add: budgets_ok_def budget_rows_def)

lemma reachable_budgets_ok: "reachable d \<Longrightarrow> budgets_ok d"
proof (induction rule: reachable.induct)
  case start
  show ?case by (simp add: budgets_ok_def budget_rows_def init_db_def)
next
  case (by_signup d generate_password_hash meth frm)
  then show ?case
    by (elim budgets_ok_same_budgets [rotated])
       (simp add: signup_def Let_def split: option.splits http_method.splits)
next
  case (by_login d check_password_hash now meth frm sess)
  then show ?case
    by (elim budgets_ok_same_budgets [rotated])
       (cases rule: login_store_cases [of check_password_hash now meth frm sess d], simp_all)
next
  case (by_add d float_of meth frm sess)
  then show ?case
    by (elim budgets_ok_same_budgets [rotated])
       (simp add: add_def Let_def split: option.splits http_method.splits)
next
  case (by_delete d eid sess)
  then show ?case
    by (elim budgets_ok_same_budgets [rotated]) (simp add: delete_def split: option.splits)
next
  case (by_edit d eid meth frm sess)
  then show ?case
    by (elim budgets_ok_same_budgets [rotated])
       (simp add: edit_def split: option.splits http_method.splits)
next
  case (by_clear_month d strftime_ym data sess)
  then show ?case
    by (elim budgets_ok_same_budgets [rotated]) (simp add: clear_month_def split: option.splits)
next
  case (by_clear_all d sess)
  then show ?case
    by (elim budgets_ok_same_budgets [rotated]) (simp add: clear_all_def split: option.splits)
next
  case (by_set_budget d data sess)
  then show ?case by (simp add: budgets_ok_set_budget)
qed

lemma set_budget_run_reachable: "reachable d \<Longrightarrow> reachable (set_budget_run reqs d)"
proof (induction reqs arbitrary: d)
  case Nil
  then show ?case by simp
next
  case (Cons req reqs)
  obtain data sess where req: "req = (data, sess)"
    by (cases req)
  from Cons.prems have "reachable (snd (set_budget data sess d))"
    by (rule reachable.by_set_budget)
  then have "reachable (set_budget_run reqs (snd (set_budget data sess d)))"
    by (rule Cons.IH)
  then show ?case by (simp add: req)
qed

lemma set_budget_run_sets_one:
  assumes "(data, Some user) \<in> set reqs"
    and "j_month data = Some month" and "j_amount data = Some a"
  shows "length (budget_rows user month (set_budget_run reqs d)) = 1"
  using assms(1)
proof (induction reqs arbitrary: d)
  case Nil
  then show ?case by simp
next
  case (Cons req reqs)
  show ?case
  proof (cases "req = (data, Some user)")
    case True
    have "length (budget_rows user month (snd (set_budget data (Some user) d))) = 1"
      by (simp add: budget_rows_set_same [OF assms(2,3)])
    then show ?thesis
      using True by (simp add: set_budget_run_keeps_one)
  next
    case False
    with Cons.prems have "(data, Some user) \<in> set reqs"
      by simp
    then show ?thesis
      by (cases req) (simp add: Cons.IH)
  qed
qed

text \<open>
  C5. After any sequence of set-budget requests that holds a complete request of identity
  \<open>user\<close> for \<open>month\<close> (a session of that identity, a month and an amount), exactly
  one budget row exists for the pair, from whatever store the sequence starts. A single
  such request leaves the freshly inserted row as the pair's only row, whatever rows the
  pair had: the rows of the pair are deleted, then one is inserted. From a reachable
  store, no sequence of requests leaves a pair with more than one row.
\<close>

theorem C5_one_budget_row:
  "((data, Some user) \<in> set reqs \<and> j_month data = Some month \<and> j_amount data = Some a
      \<longrightarrow> length (budget_rows user month (set_budget_run reqs d)) = 1)
   \<and> (j_month data = Some month \<and> j_amount data = Some a
      \<longrightarrow> budget_rows user month (snd (set_budget data (Some user) d))
            = [\<lparr>b_id = budgets_seq d + 1, b_user = user, b_month = month, b_amount = a\<rparr>])
   \<and> (reachable d \<longrightarrow> length (budget_rows user month (set_budget_run reqs d)) \<le> 1)"
proof (intro conjI impI)
  assume "(data, Some user) \<in> set reqs \<and> j_month data = Some month \<and> j_amount data = Some a"
  then show "length (budget_rows user month (set_budget_run reqs d)) = 1"
    by (intro set_budget_run_sets_one [of data user reqs month a]) simp_all
next
  assume "j_month data = Some month \<and> j_amount data = Some a"
  then show "budget_rows user month (snd (set_budget data (Some user) d))
      = [\<lparr>b_id = budgets_seq d + 1, b_user = user, b_month = month, b_amount = a\<rparr>]"
    by (intro budget_rows_set_same) simp_all
next
  assume "reachable d"
  then have "budgets_ok (set_budget_run reqs d)"
    by (intro reachable_budgets_ok set_budget_run_reachable)
  then show "length (budget_rows user month (set_budget_run reqs d)) \<le> 1"
    by (simp add: budgets_ok_def)
qed

theorem C5_one_budget_row_witness:
  "budgets (set_budget_run twice_reqs scenario_db)
     = [\<lparr>b_id = 3, b_user = ''bob'', b_month = ''2024-02'', b_amount = 5\<rparr>,
        \<lparr>b_id = 4, b_user = ''alice'', b_month = ''2024-01'', b_amount = 300\<rparr>]
   \<and> length (budget_rows ''alice'' ''2024-01'' (set_budget_run twice_reqs scenario_db)) = 1
   \<and> length (budget_rows ''bob'' ''2024-01'' (set_budget_run twice_reqs scenario_db)) \<le> 1"
proof -
  have "(\<lparr>j_month = Some ''2024-01'', j_amount = Some 250\<rparr>, Some ''alice'') \<in> set twice_reqs"
    by (simp add: twice_reqs_def)
  with C5_one_budget_row [of "\<lparr>j_month = Some ''2024-01'', j_amount = Some 250\<rparr>" "''alice''"
      twice_reqs "''2024-01''" 250 scenario_db]
  have "length (budget_rows ''alice'' ''2024-01'' (set_budget_run twice_reqs scenario_db)) = 1"
    by simp
  moreover from C5_one_budget_row [of _ "''bob''" twice_reqs "''2024-01''" _ scenario_db]
    scenario_db_reachable
  have "length (budget_rows ''bob'' ''2024-01'' (set_budget_run twice_reqs scenario_db)) \<le> 1"
    by simp
  moreover have "budgets (set_budget_run twice_reqs scenario_db)
     = [\<lparr>b_id = 3, b_user = ''bob'', b_month = ''2024-02'', b_amount = 5\<rparr>,
        \<lparr>b_id = 4, b_user = ''alice'', b_month = ''2024-01'', b_amount = 300\<rparr>]"
    by (simp add: twice_reqs_def scenario_db_rows set_budget_def)
  ultimately show ?thesis by simp
qed

subsection \<open>The budget alert\<close>


text \<open>
  With or without a filter, the alert compares the first budget row of the effective
  month with the total of the rows the dashboard shows; without a filter these are all
  rows of the identity, not those of the current month.
\<close>

lemma alert_any_filter:
  assumes "dashboard float_of strftime_ym this_month (Some user) month d
             = Render (Dashboard_html a) fl"
  shows "budget_alert a \<longleftrightarrow>
           (case find (\<lambda>b. b_user b = user \<and> b_month b = effective_month month this_month)
                   (budgets d) of
              None \<Rightarrow> False
            | Some b \<Rightarrow> b_amount b \<noteq> 0 \<and> b_amount b \<le> sum_amounts float_of (shown_expenses a))"
proof -
  from assms have "total a = sum_amounts float_of (shown_expenses a)"
    and "budget a = map_option b_amount
        (find (\<lambda>b. b_user b = user \<and> b_month b = effective_month month this_month) (budgets d))"
    and "budget_alert a = alert_of (budget a) (total a)"
    by (auto elim: dashboard_args_cases)
  then show ?thesis
    by (simp add: alert_of_def split: option.splits)
qed




end
